theory Spec2Isabelle
  imports Complex_Main "HOL-Library.Log_Nat"
begin

section \<open>Data model of app.py\<close>

text \<open>
  Python \<open>str\<close> values that carry user text are lists of Unicode code points, because
  \<open>re.search\<close> works on code points. Fixed ASCII strings of the program (error messages,
  locale names, font paths) are HOL strings.

  Python \<open>float\<close> values (the components of a Vision bounding box and everything
  computed from them) are IEEE 754 double-precision numbers; they are modelled in the next
  section.
\<close>

type_synonym pystr = "nat list"

section \<open>Python floats\<close>

text \<open>
  A double is a number \<open>m * 2 ^ e\<close> with an integer significand of at most 53 bits;
  \<open>Dbl m e\<close> stands for that number and \<open>val\<close> gives it as a real. Every arithmetic
  operation of Python computes the exact result and rounds it to the nearest such number,
  ties to the even significand (\<open>round53\<close>). The range of the exponent is not modelled:
  no operation overflows or reaches the subnormal numbers.
\<close>

datatype dbl = Dbl int int

definition val :: "dbl \<Rightarrow> real" where
  "val d = (case d of Dbl m e \<Rightarrow>
      if 0 \<le> e then real_of_int m * 2 ^ nat e else real_of_int m / 2 ^ nat (- e))"

text \<open>\<open>m / 2 ^ s\<close> for \<open>m\<close> not negative, rounded to the nearest integer, ties to even.\<close>

definition round_even :: "int \<Rightarrow> nat \<Rightarrow> int" where
  "round_even m s =
     (if s = 0 then m
      else
        (let q = m div 2 ^ s; r = m mod 2 ^ s; half = 2 ^ (s - 1)
         in if half < r \<or> (r = half \<and> odd q) then q + 1 else q))"

definition round53 :: "dbl \<Rightarrow> dbl" where
  "round53 d = (case d of Dbl m e \<Rightarrow>
      (let n = bitlen \<bar>m\<bar>
       in if n \<le> 53 then Dbl m e
          else (let s = nat (n - 53) in Dbl (sgn m * round_even \<bar>m\<bar> s) (e + int s))))"

text \<open>Python's \<open>+\<close>, \<open>-\<close> and \<open>*\<close> on floats, and the conversion of an \<open>int\<close> operand.\<close>

definition fadd :: "dbl \<Rightarrow> dbl \<Rightarrow> dbl" where
  "fadd a b = (case (a, b) of (Dbl m1 e1, Dbl m2 e2) \<Rightarrow>
      (let e = min e1 e2
       in round53 (Dbl (m1 * 2 ^ nat (e1 - e) + m2 * 2 ^ nat (e2 - e)) e)))"

definition fsub :: "dbl \<Rightarrow> dbl \<Rightarrow> dbl" where
  "fsub a b = (case (a, b) of (Dbl m1 e1, Dbl m2 e2) \<Rightarrow>
      (let e = min e1 e2
       in round53 (Dbl (m1 * 2 ^ nat (e1 - e) - m2 * 2 ^ nat (e2 - e)) e)))"

definition fmul :: "dbl \<Rightarrow> dbl \<Rightarrow> dbl" where
  "fmul a b = (case (a, b) of (Dbl m1 e1, Dbl m2 e2) \<Rightarrow> round53 (Dbl (m1 * m2) (e1 + e2)))"

definition float_of_int :: "int \<Rightarrow> dbl" where
  "float_of_int i = round53 (Dbl i 0)"

section \<open>Boxes, fragments and exceptions\<close>

text \<open>The dictionary \<open>{"x": .., "y": .., "w": .., "h": ..}\<close> built in \<open>_ocr_vision\<close>.\<close>

record box =
  box_x :: dbl
  box_y :: dbl
  box_w :: dbl
  box_h :: dbl

text \<open>The dictionary \<open>{"text": .., "box": ..}\<close> appended to \<open>data\<close> in \<open>_ocr_vision\<close>.\<close>

record item =
  item_text :: pystr
  item_box :: box

text \<open>
  Exceptions of class \<open>Exception\<close>, the class both handlers of the program name.
  \<open>subprocess.CalledProcessError\<close> is kept apart because \<open>capture_and_translate\<close> has a
  handler of its own for it; every other exception is carried with its \<open>str(e)\<close>.
\<close>

datatype exn = CalledProcessError | Exception string

section \<open>Coordinate mapping (lines 92 to 95 of capture_and_translate)\<close>

record pixel_rect =
  px :: dbl
  py :: dbl
  pw :: dbl
  ph :: dbl

text \<open>
  \<open>x = box['x'] * width\<close>, \<open>y = (1.0 - (box['y'] + box['h'])) * height\<close>,
  \<open>w = box['w'] * width\<close>, \<open>h = box['h'] * height\<close>; \<open>width, height = img.size\<close> are
  Python integers.
\<close>

definition to_pixel_rect :: "box \<Rightarrow> int \<Rightarrow> int \<Rightarrow> pixel_rect" where
  "to_pixel_rect b width height =
     \<lparr> px = fmul (box_x b) (float_of_int width),
       py = fmul (fsub (Dbl 1 0) (fadd (box_y b) (box_h b))) (float_of_int height),
       pw = fmul (box_w b) (float_of_int width),
       ph = fmul (box_h b) (float_of_int height) \<rparr>"

section \<open>Translation of one fragment (_translate_fragment)\<close>

text \<open>
  The pattern of line 50 is one character class of three ranges, U+3040 to U+309F,
  U+30A0 to U+30FF and U+4E00 to U+9FFF. The class is the list of its ranges, and
  \<open>re.search\<close> for such a pattern returns the first
  character of the string that lies in one of the ranges, if there is one.
\<close>

definition ja_ranges :: "(nat \<times> nat) list" where
  "ja_ranges = [(0x3040, 0x309F), (0x30A0, 0x30FF), (0x4E00, 0x9FFF)]"

definition in_class :: "(nat \<times> nat) list \<Rightarrow> nat \<Rightarrow> bool" where
  "in_class rs c = list_ex (\<lambda>(lo, hi). lo \<le> c \<and> c \<le> hi) rs"

definition re_search :: "(nat \<times> nat) list \<Rightarrow> pystr \<Rightarrow> nat option" where
  "re_search rs s = List.find (in_class rs) s"

text \<open>
  One call of the translation collaborator,
  \<open>GoogleTranslator(source=.., target=..).translate(text)\<close>. The collaborator itself is a
  parameter: it answers a call with the translated string or raises.
\<close>

record call =
  call_source :: string
  call_target :: string
  call_text :: pystr

text \<open>
  \<open>_translate_fragment\<close> returns a string on every path. The model returns with it the
  calls of the collaborator that this invocation made, so that "no call" can be stated.
  The \<open>print\<close> of the handler is not modelled.
\<close>

definition translate_fragment :: "(call \<Rightarrow> exn + pystr) \<Rightarrow> pystr \<Rightarrow> pystr \<times> call list" where
  "translate_fragment tr s =
     (if re_search ja_ranges s \<noteq> None then (s, [])
      else
        (let c = \<lparr> call_source = ''auto'', call_target = ''ja'', call_text = s \<rparr> in
         case tr c of
           Inr t \<Rightarrow> (t, [c])
         | Inl e \<Rightarrow> (s, [c])))"

section \<open>The worker pool (self._executor.map)\<close>

text \<open>
  \<open>ThreadPoolExecutor.map(fn, xs)\<close> submits one task per element and yields the tasks'
  results in the order of \<open>xs\<close>. The model keeps one result slot per task. The tasks finish
  in some order, given as a list of task indices; when task \<open>i\<close> finishes its slot is
  filled. \<open>list(...)\<close> reads the slots in index order and waits for a slot that is never
  filled: that is the value \<open>None\<close>.

  The function of a task takes the task's index as well, so that the collaborator may
  answer two tasks with equal arguments differently.
\<close>

definition complete_task :: "(nat \<Rightarrow> 'a) \<Rightarrow> nat \<Rightarrow> 'a option list \<Rightarrow> 'a option list" where
  "complete_task job i slots = (if i < length slots then slots[i := Some (job i)] else slots)"

definition run_pool :: "(nat \<Rightarrow> 'a) \<Rightarrow> nat \<Rightarrow> nat list \<Rightarrow> 'a option list" where
  "run_pool job n order = fold (complete_task job) order (replicate n None)"

definition executor_map :: "(nat \<Rightarrow> 'b \<Rightarrow> 'a) \<Rightarrow> 'b list \<Rightarrow> nat list \<Rightarrow> 'a list option" where
  "executor_map f xs order = those (run_pool (\<lambda>i. f i (xs ! i)) (length xs) order)"

text \<open>
  The order in which the tasks of one run finish, from the latency of each task: the
  task indices sorted by latency.
\<close>

definition completion_order :: "(nat \<Rightarrow> nat) \<Rightarrow> nat \<Rightarrow> nat list" where
  "completion_order lat n = sort_key lat [0..<n]"

text \<open>
  Lines 73 and 74: \<open>texts_to_translate = [item['text'] for item in results]\<close> and
  \<open>translated_texts = list(self._executor.map(self._translate_fragment, texts_to_translate))\<close>.
  \<open>tr i\<close> is the collaborator as it answers the task of fragment \<open>i\<close>.
\<close>

definition translate_all ::
  "(nat \<Rightarrow> call \<Rightarrow> exn + pystr) \<Rightarrow> nat list \<Rightarrow> item list \<Rightarrow> (pystr \<times> call list) list option" where
  "translate_all tr order results =
     (let texts_to_translate = map item_text results
      in executor_map (\<lambda>i. translate_fragment (tr i)) texts_to_translate order)"

section \<open>Text recognition (_ocr_vision)\<close>

text \<open>
  One element of \<open>request.results()\<close>: what \<open>topCandidates_(1)\<close> returns for it and its
  \<open>boundingBox()\<close>.
\<close>

record observation =
  topCandidates :: "pystr list"
  boundingBox :: box

text \<open>
  What the Vision request does on the file. It raises, or \<open>performRequests_error_\<close>
  returns: \<open>OcrDone ok results\<close> is a call whose Objective-C result is \<open>ok\<close> and after which
  \<open>request.results()\<close> is \<open>results\<close>, an array of observations or \<open>None\<close> (nil, which is
  what Vision leaves there when the request failed).
\<close>

datatype ocr_outcome = OcrRaise exn | OcrDone bool "observation list option"

text \<open>
  The method has an \<open>NSError\<close> output argument, so the bridge returns to Python the pair
  of the method's result and the error: \<open>success\<close> is that pair. \<open>not t\<close> for a tuple \<open>t\<close>
  is true for the empty tuple only.
\<close>

datatype pyval = PyBool bool | PyNone | PyObject

definition py_not :: "pyval list \<Rightarrow> bool" where
  "py_not t = (t = [])"

text \<open>The loop of lines 147 to 161: an observation with no candidate is left out.\<close>

fun ocr_data :: "observation list \<Rightarrow> item list" where
  "ocr_data [] = []"
| "ocr_data (r # rs) =
     (case topCandidates r of
        [] \<Rightarrow> ocr_data rs
      | c # _ \<Rightarrow> \<lparr> item_text = c, item_box = boundingBox r \<rparr> # ocr_data rs)"

text \<open>
  Lines 140 to 163. \<open>for result in results\<close> raises TypeError when \<open>results\<close> is \<open>None\<close>.
\<close>

definition not_iterable :: string where
  "not_iterable =
     CHR 0x27 # ''NoneType'' @ CHR 0x27 # '' object is not iterable''"

definition ocr_vision :: "ocr_outcome \<Rightarrow> exn + item list" where
  "ocr_vision out =
     (case out of
        OcrRaise e \<Rightarrow> Inl e
      | OcrDone ok results \<Rightarrow>
          (let success = [PyBool ok, if ok then PyNone else PyObject]
           in if py_not success then Inr []
              else
                (case results of
                   None \<Rightarrow> Inl (Exception not_iterable)
                 | Some rs \<Rightarrow> Inr (ocr_data rs))))"

section \<open>Fonts and drawing\<close>

datatype font = TrueType string nat | LoadDefault

definition font_paths :: "string list" where
  "font_paths =
     [''/System/Library/Fonts/Hiragino Sans GB.ttc'',
      ''/System/Library/Fonts/STHeiti Light.ttc'',
      ''/System/Library/Fonts/Cache/Hiragino Sans GB.ttc'',
      ''/Library/Fonts/Arial Unicode.ttf'']"

definition find_font :: "(string \<Rightarrow> bool) \<Rightarrow> string option" where
  "find_font path_exists = List.find path_exists font_paths"

text \<open>
  The calls on the \<open>ImageDraw\<close> object: \<open>draw.rectangle([x0, y0, x1, y1], fill=..)\<close> and
  \<open>draw.text((x, y), s, fill=.., font=..)\<close>.
\<close>

datatype draw_op =
  Rectangle dbl dbl dbl dbl string
| DrawText dbl dbl pystr string font

text \<open>
  The body of the loop of lines 88 to 103 for one fragment: the two drawing calls, the
  white rectangle around the mapped box with \<open>padding = 2\<close> and the translated string at the
  corner of the mapped box.
\<close>

definition background :: "int \<Rightarrow> int \<Rightarrow> item \<Rightarrow> draw_op" where
  "background width height it =
     (let r = to_pixel_rect (item_box it) width height;
          padding = float_of_int 2
      in Rectangle (fsub (px r) padding) (fsub (py r) padding)
           (fadd (fadd (px r) (pw r)) padding) (fadd (fadd (py r) (ph r)) padding) ''white'')"

definition label :: "font \<Rightarrow> int \<Rightarrow> int \<Rightarrow> pystr \<Rightarrow> item \<Rightarrow> draw_op" where
  "label fnt width height translated it =
     (let r = to_pixel_rect (item_box it) width height
      in DrawText (px r) (py r) translated ''black'' fnt)"

text \<open>
  The loop itself. \<open>fault\<close> tells whether a drawing call raises.
  \<open>translated_texts[i]\<close> raises IndexError when \<open>i\<close> is out of range.
\<close>

fun draw_items ::
  "(draw_op \<Rightarrow> exn option) \<Rightarrow> font \<Rightarrow> int \<Rightarrow> int \<Rightarrow> pystr list \<Rightarrow> nat \<Rightarrow> item list
     \<Rightarrow> exn + draw_op list" where
  "draw_items fault fnt width height translated_texts i [] = Inr []"
| "draw_items fault fnt width height translated_texts i (it # rest) =
     (if length translated_texts \<le> i then Inl (Exception ''list index out of range'')
      else
        (let translated = translated_texts ! i in
         case fault (background width height it) of
           Some e \<Rightarrow> Inl e
         | None \<Rightarrow>
            (case fault (label fnt width height translated it) of
               Some e \<Rightarrow> Inl e
             | None \<Rightarrow>
                (case draw_items fault fnt width height translated_texts (Suc i) rest of
                   Inl e \<Rightarrow> Inl e
                 | Inr ops \<Rightarrow>
                    Inr (background width height it
                         # label fnt width height translated it # ops)))))"

text \<open>
  Drawing calls change the image in place, one after the other. What a call does to a
  pixel is a matter of the imaging library and a parameter here: \<open>raster d p c\<close> is the
  colour of pixel \<open>p\<close> after call \<open>d\<close> when it was \<open>c\<close> before. A call is opaque at a pixel
  when the colour after it does not depend on the colour before it.
\<close>

definition paint :: "(draw_op \<Rightarrow> 'p \<Rightarrow> 'c \<Rightarrow> 'c) \<Rightarrow> draw_op list \<Rightarrow> ('p \<Rightarrow> 'c) \<Rightarrow> 'p \<Rightarrow> 'c" where
  "paint raster ops img p = fold (\<lambda>d c. raster d p c) ops (img p)"

definition opaque_at :: "(draw_op \<Rightarrow> 'p \<Rightarrow> 'c \<Rightarrow> 'c) \<Rightarrow> draw_op \<Rightarrow> 'p \<Rightarrow> bool" where
  "opaque_at raster d p = (\<forall>c c'. raster d p c = raster d p c')"

section \<open>The pipeline (capture_and_translate)\<close>

text \<open>
  The collaborators of one run. The content of the capture file is a number that stands
  for the bytes on disk.
  \<^item> \<open>screencapture\<close>: from the file at \<open>temp_capture.png\<close> before the call, how
    \<open>subprocess.run\<close> ends and the file afterwards;
  \<^item> \<open>vision\<close>: what the Vision request does on a file;
  \<^item> \<open>translator i\<close>: the translation collaborator as it answers the task of
    fragment \<open>i\<close>, and \<open>latency i\<close>: how long that task takes;
  \<^item> \<open>image_size\<close>, \<open>pil_fault\<close>, \<open>png_base64\<close>: the size of the opened image, whether a
    call of the imaging library raises, and the base64 text of the PNG of the drawn image.
\<close>

datatype proc = Exited int | SpawnError string

datatype pil_call = Open nat | LoadFont font | Draw draw_op | Save "draw_op list"

record env =
  screencapture :: "nat option \<Rightarrow> proc \<times> nat option"
  vision :: "nat \<Rightarrow> ocr_outcome"
  translator :: "nat \<Rightarrow> call \<Rightarrow> exn + pystr"
  latency :: "nat \<Rightarrow> nat"
  image_size :: "nat \<Rightarrow> int \<times> int"
  pil_fault :: "pil_call \<Rightarrow> exn option"
  png_base64 :: "nat \<Rightarrow> draw_op list \<Rightarrow> string"

text \<open>
  What a run can change or leave behind: the file at \<open>self.temp_image\<close> (\<open>None\<close> when no
  file is there), and, to state what the runs did, the number of OCR invocations so far,
  the calls of the translation collaborator so far (one list per fragment) and the
  drawing calls of the last image.
\<close>

record world =
  temp_file :: "nat option"
  ocr_runs :: nat
  tr_log :: "call list list"
  drawn :: "draw_op list"

record api =
  cached_font_path :: "string option"

text \<open>The dictionary that \<open>capture_and_translate\<close> returns.\<close>

datatype py_result = Image string | Error string

text \<open>\<open>_cleanup\<close>, and the same two lines at 111 and 112; \<open>os.remove\<close> succeeds.\<close>

definition cleanup :: "world \<Rightarrow> world" where
  "cleanup s = (if temp_file s \<noteq> None then s\<lparr>temp_file := None\<rparr> else s)"

text \<open>\<open>API.__init__\<close>: the font path is looked up once, and a leftover file is removed.\<close>

definition api_init :: "(string \<Rightarrow> bool) \<Rightarrow> world \<Rightarrow> api \<times> world" where
  "api_init path_exists s = (\<lparr> cached_font_path = find_font path_exists \<rparr>, cleanup s)"

text \<open>Lines 83 to 86; an empty path is false in Python.\<close>

definition load_font :: "api \<Rightarrow> font" where
  "load_font A =
     (case cached_font_path A of
        None \<Rightarrow> LoadDefault
      | Some p \<Rightarrow> if p = [] then LoadDefault else TrueType p 14)"

text \<open>
  Step 4, lines 77 to 108: the drawing calls made on the image and the encoded result,
  or the exception of the first call that raises.
\<close>

definition process_image ::
  "env \<Rightarrow> api \<Rightarrow> nat \<Rightarrow> item list \<Rightarrow> pystr list \<Rightarrow> exn + (draw_op list \<times> string)" where
  "process_image E A img results translated_texts =
     (case pil_fault E (Open img) of
        Some e \<Rightarrow> Inl e
      | None \<Rightarrow>
         (let (width, height) = image_size E img;
              fnt = load_font A
          in case pil_fault E (LoadFont fnt) of
               Some e \<Rightarrow> Inl e
             | None \<Rightarrow>
                (case draw_items (\<lambda>d. pil_fault E (Draw d)) fnt width height
                        translated_texts 0 results of
                   Inl e \<Rightarrow> Inl e
                 | Inr ops \<Rightarrow>
                    (case pil_fault E (Save ops) of
                       Some e \<Rightarrow> Inl e
                     | None \<Rightarrow> Inr (ops, png_base64 E img ops)))))"

text \<open>
  The body of the \<open>try\<close> block, lines 59 to 116. \<open>Inl\<close> is an exception that leaves the
  block; \<open>None\<close> is a run that waits for a translation task forever.
\<close>

definition capture_body :: "env \<Rightarrow> api \<Rightarrow> world \<Rightarrow> ((exn + py_result) \<times> world) option" where
  "capture_body E A s =
     (case screencapture E (temp_file s) of
        (p, f) \<Rightarrow>
          (let s1 = s\<lparr>temp_file := f\<rparr> in
           case p of
             SpawnError m \<Rightarrow> Some (Inl (Exception m), s1)
           | Exited rc \<Rightarrow>
              if rc \<noteq> 0 then Some (Inl CalledProcessError, s1)
              else
                (case temp_file s1 of
                   None \<Rightarrow> Some (Inr (Error ''Canceled or failed to capture''), s1)
                 | Some img \<Rightarrow>
                    (let s2 = s1\<lparr>ocr_runs := Suc (ocr_runs s1)\<rparr> in
                     case ocr_vision (vision E img) of
                       Inl e \<Rightarrow> Some (Inl e, s2)
                     | Inr results \<Rightarrow>
                        if results = [] then Some (Inr (Error ''No text detected''), s2)
                        else
                          (case translate_all (translator E)
                                  (completion_order (latency E) (length results)) results of
                             None \<Rightarrow> None
                           | Some rs \<Rightarrow>
                              (let s3 = s2\<lparr>tr_log := tr_log s2 @ map snd rs\<rparr> in
                               case process_image E A img results (map fst rs) of
                                 Inl e \<Rightarrow> Some (Inl e, s3)
                               | Inr (ops, img_data) \<Rightarrow>
                                  Some (Inr (Image (''data:image/png;base64,'' @ img_data)),
                                        cleanup (s3\<lparr>drawn := ops\<rparr>))))))))"

text \<open>
  \<open>capture_and_translate\<close>: the body under its two handlers. \<open>Inl\<close> in the result is an
  exception that reaches the caller. The \<open>print\<close> calls of the body and of the second
  handler are not modelled.
\<close>

definition capture_and_translate ::
  "env \<Rightarrow> api \<Rightarrow> world \<Rightarrow> ((exn + py_result) \<times> world) option" where
  "capture_and_translate E A s =
     (case capture_body E A s of
        None \<Rightarrow> None
      | Some (Inl CalledProcessError, s') \<Rightarrow> Some (Inr (Error ''Capture cancelled''), s')
      | Some (Inl (Exception m), s') \<Rightarrow> Some (Inr (Error m), s')
      | Some (Inr r, s') \<Rightarrow> Some (Inr r, s'))"

section \<open>Example runs\<close>

text \<open>
  Collaborators for concrete runs: the translation collaborator answers every call with
  the given function, every task takes the same time, the image is 100 by 100, and no
  call of the imaging library raises.
\<close>

definition example_env ::
  "(nat option \<Rightarrow> proc \<times> nat option) \<Rightarrow> (nat \<Rightarrow> ocr_outcome) \<Rightarrow> (nat \<Rightarrow> call \<Rightarrow> exn + pystr)
     \<Rightarrow> env" where
  "example_env cap ocr tr =
     \<lparr> screencapture = cap, vision = ocr, translator = tr, latency = (\<lambda>i. 0),
       image_size = (\<lambda>img. (100, 100)), pil_fault = (\<lambda>c. None),
       png_base64 = (\<lambda>img ops. ''iVBORw0KGgo='') \<rparr>"

text \<open>A world with no capture file, and the \<open>API\<close> object of a machine with none of the fonts.\<close>

definition fresh :: world where
  "fresh = \<lparr> temp_file = None, ocr_runs = 0, tr_log = [], drawn = [] \<rparr>"

definition no_font_api :: api where
  "no_font_api = fst (api_init (\<lambda>p. False) fresh)"

text \<open>The \<open>API\<close> object of a machine that has the last font of the list only.\<close>

definition arial_api :: api where
  "arial_api = fst (api_init (\<lambda>p. p = ''/Library/Fonts/Arial Unicode.ttf'') fresh)"

text \<open>
  A rasteriser for concrete runs, on pixels with integer coordinates and colours by
  name: a rectangle sets every pixel within its bounds to its fill colour, and text
  leaves the pixel as it is.
\<close>

definition flat_raster :: "draw_op \<Rightarrow> int \<times> int \<Rightarrow> string \<Rightarrow> string" where
  "flat_raster d p c =
     (case d of
        Rectangle x0 y0 x1 y1 fill \<Rightarrow>
          if val x0 \<le> real_of_int (fst p) \<and> real_of_int (fst p) \<le> val x1 \<and>
             val y0 \<le> real_of_int (snd p) \<and> real_of_int (snd p) \<le> val y1
          then fill else c
      | DrawText x y t fill fnt \<Rightarrow> c)"

text \<open>
  A fragment "Hello" in the box (0.125, 0.75, 0.25, 0.125), and a second fragment with
  the same string in the box (0.25, 0.625, 0.25, 0.125), which overlaps the first.
\<close>

definition hello :: pystr where
  "hello = [72, 101, 108, 108, 111]"

definition hello_item :: item where
  "hello_item =
     \<lparr> item_text = hello,
       item_box = \<lparr> box_x = Dbl 1 (- 3), box_y = Dbl 3 (- 2), box_w = Dbl 1 (- 2),
                    box_h = Dbl 1 (- 3) \<rparr> \<rparr>"

definition hello_item2 :: item where
  "hello_item2 =
     \<lparr> item_text = hello,
       item_box = \<lparr> box_x = Dbl 1 (- 2), box_y = Dbl 5 (- 3), box_w = Dbl 1 (- 2),
                    box_h = Dbl 1 (- 3) \<rparr> \<rparr>"

text \<open>The string of five hiragana that translates "Hello".\<close>

definition konnichiwa :: pystr where
  "konnichiwa = [0x3053, 0x3093, 0x306B, 0x3061, 0x306F]"

text \<open>A collaborator that translates for the task of fragment 0 and fails for every other task.\<close>

definition flaky :: "nat \<Rightarrow> call \<Rightarrow> exn + pystr" where
  "flaky i c = (if i = 0 then Inr konnichiwa else Inl (Exception ''timed out''))"

section \<open>Rounding of the floating-point operations\<close>

lemma two_powr_nat: "0 \<le> k \<Longrightarrow> (2::real) powr real_of_int k = 2 ^ nat k"
proof -
  assume k: "0 \<le> k"
  have "(2::real) powr real (nat k) = 2 ^ nat k"
    by (rule powr_realpow) simp
  moreover have "real (nat k) = real_of_int k"
    using k by simp
  ultimately show ?thesis by simp
qed

lemma val_powr: "val (Dbl m e) = real_of_int m * 2 powr real_of_int e"
proof (cases "0 \<le> e")
  case True
  then show ?thesis by (simp add: val_def two_powr_nat)
next
  case False
  then have "(2::real) powr real_of_int (- e) = 2 ^ nat (- e)"
    by (intro two_powr_nat) simp
  moreover have "(2::real) powr real_of_int e = 1 / 2 powr real_of_int (- e)"
    by (simp add: powr_minus inverse_eq_divide)
  ultimately have "(2::real) powr real_of_int e = 1 / 2 ^ nat (- e)"
    by (simp only:)
  with False show ?thesis by (simp add: val_def)
qed

lemma round_even_cases:
  "0 < s \<Longrightarrow> round_even a s = a div 2 ^ s \<and> \<not> 2 ^ (s - 1) < a mod 2 ^ s
     \<or> round_even a s = a div 2 ^ s + 1 \<and> 2 ^ (s - 1) \<le> a mod 2 ^ s"
  by (auto simp: round_even_def Let_def)

lemma round_even_near:
  "\<bar>round_even a s * 2 ^ s - a\<bar> * 2 \<le> 2 ^ s"
proof (cases "s = 0")
  case True
  then show ?thesis by (simp add: round_even_def)
next
  case False
  then have s: "0 < s" by simp
  define q where "q = a div 2 ^ s"
  define r where "r = a mod 2 ^ s"
  have a: "a = q * 2 ^ s + r" by (simp only: q_def r_def div_mult_mod_eq)
  have r: "0 \<le> r" "r < 2 ^ s" by (simp_all add: r_def)
  have half: "(2::int) ^ s = 2 * 2 ^ (s - 1)"
    using s by (cases s) simp_all
  from round_even_cases [OF s, of a]
  show ?thesis
  proof
    assume "round_even a s = a div 2 ^ s \<and> \<not> 2 ^ (s - 1) < a mod 2 ^ s"
    then have R: "round_even a s = q" and le: "r \<le> 2 ^ (s - 1)"
      by (simp_all add: q_def r_def)
    have "q * 2 ^ s - a = - r"
      using a by simp
    then have "\<bar>round_even a s * 2 ^ s - a\<bar> * 2 = 2 * r"
      using r by (simp add: R)
    also have "\<dots> \<le> 2 ^ s"
      using le half by linarith
    finally show ?thesis .
  next
    assume "round_even a s = a div 2 ^ s + 1 \<and> 2 ^ (s - 1) \<le> a mod 2 ^ s"
    then have R: "round_even a s = q + 1" and le: "2 ^ (s - 1) \<le> r"
      by (simp_all add: q_def r_def)
    have "(q + 1) * 2 ^ s - a = 2 ^ s - r"
      using a by (simp add: algebra_simps)
    then have "\<bar>round_even a s * 2 ^ s - a\<bar> * 2 = 2 * (2 ^ s - r)"
      using r by (simp add: R)
    also have "\<dots> \<le> 2 ^ s"
    proof -
      have "(2::int) ^ s \<le> 2 * r"
        using le by (simp only: half)
      then show ?thesis by (simp add: algebra_simps)
    qed
    finally show ?thesis .
  qed
qed


lemma two_powr_shift: "(2::real) powr (real_of_int e + real s) = 2 ^ s * 2 powr real_of_int e"
proof -
  have "(2::real) powr (real_of_int e + real s) = 2 powr real_of_int e * 2 powr real s"
    by (simp add: powr_add)
  also have "(2::real) powr real s = 2 ^ s"
    by (rule powr_realpow) simp
  finally show ?thesis by simp
qed

lemma round53_error: "\<bar>val (round53 d) - val d\<bar> \<le> \<bar>val d\<bar> / 2 ^ 53"
proof (cases d)
  case (Dbl m e)
  show ?thesis
  proof (cases "bitlen \<bar>m\<bar> \<le> 53")
    case True
    then show ?thesis by (simp add: Dbl round53_def)
  next
    case False
    define a where "a = \<bar>m\<bar>"
    define s where "s = nat (bitlen a - 53)"
    define R where "R = round_even a s"
    define P where "P = (2::real) powr real_of_int e"
    have big: "53 < bitlen a" using False by (simp add: a_def)
    then have apos: "0 < a"
      using bitlen_eq_zero_iff [of a] by (cases "0 < a") simp_all
    have "(2::int) ^ nat (bitlen a - 1) \<le> a"
      using bitlen_bounds [OF apos] by simp
    moreover have "nat (bitlen a - 1) = s + 52"
      using big by (simp add: s_def)
    ultimately have lower: "(2::int) ^ s * 2 ^ 52 \<le> a"
      by (simp add: power_add)
    have near: "\<bar>R * 2 ^ s - a\<bar> * 2 \<le> 2 ^ s"
      unfolding R_def by (rule round_even_near)
    have "\<bar>R * 2 ^ s - a\<bar> * 2 ^ 53 = (\<bar>R * 2 ^ s - a\<bar> * 2) * 2 ^ 52"
      by simp
    also have "\<dots> \<le> 2 ^ s * 2 ^ 52"
      using near by (rule mult_right_mono) simp
    also have "\<dots> \<le> a" by (rule lower)
    finally have "real_of_int (\<bar>R * 2 ^ s - a\<bar> * 2 ^ 53) \<le> real_of_int a"
      by (simp only: of_int_le_iff)
    then have rel: "real_of_int \<bar>R * 2 ^ s - a\<bar> \<le> real_of_int a / 2 ^ 53"
      by (simp add: field_simps)
    have Ppos: "0 < P" by (simp add: P_def)
    have m: "m = sgn m * a" by (simp add: a_def mult_sgn_abs)
    have sg: "\<bar>sgn m\<bar> = 1" using apos by (simp add: a_def abs_sgn_eq)
    have r53: "round53 (Dbl m e) = Dbl (sgn m * R) (e + int s)"
      using False by (simp add: round53_def Let_def R_def s_def a_def)
    have "val (round53 d) - val d
            = real_of_int (sgn m * R) * (2 ^ s * P) - real_of_int m * P"
      by (simp add: r53 Dbl val_powr two_powr_shift P_def)
    also have "\<dots> = real_of_int (sgn m * (R * 2 ^ s - a)) * P"
      by (subst (2) m) (simp add: algebra_simps)
    finally have "\<bar>val (round53 d) - val d\<bar>
        = \<bar>real_of_int (sgn m)\<bar> * \<bar>real_of_int (R * 2 ^ s - a)\<bar> * \<bar>P\<bar>"
      by (simp only: of_int_mult abs_mult)
    also have "\<bar>real_of_int (sgn m)\<bar> = 1"
      using sg by (simp only: of_int_abs [symmetric] of_int_1)
    finally have "\<bar>val (round53 d) - val d\<bar> = real_of_int \<bar>R * 2 ^ s - a\<bar> * P"
      using Ppos by simp
    also have "\<dots> \<le> real_of_int a / 2 ^ 53 * P"
      using rel Ppos by (simp add: mult_right_mono)
    also have "\<dots> = \<bar>val d\<bar> / 2 ^ 53"
      using Ppos by (simp add: Dbl val_powr abs_mult a_def P_def)
    finally show ?thesis .
  qed
qed


lemma val_align:
  assumes "e \<le> e1"
  shows "val (Dbl (m * 2 ^ nat (e1 - e)) e) = val (Dbl m e1)"
proof -
  have "real_of_int e + real (nat (e1 - e)) = real_of_int e1"
    using assms by simp
  then have "(2::real) powr real_of_int e1 = 2 ^ nat (e1 - e) * 2 powr real_of_int e"
    using two_powr_shift [of e "nat (e1 - e)"] by simp
  then show ?thesis
    by (simp add: val_powr)
qed

lemma val_plus: "val (Dbl (m1 + m2) e) = val (Dbl m1 e) + val (Dbl m2 e)"
  by (simp add: val_powr algebra_simps)

lemma val_minus: "val (Dbl (m1 - m2) e) = val (Dbl m1 e) - val (Dbl m2 e)"
  by (simp add: val_powr algebra_simps)

lemma val_times: "val (Dbl (m1 * m2) (e1 + e2)) = val (Dbl m1 e1) * val (Dbl m2 e2)"
  by (simp add: val_powr powr_add)

lemma fadd_error: "\<bar>val (fadd a b) - (val a + val b)\<bar> \<le> \<bar>val a + val b\<bar> / 2 ^ 53"
proof (cases a; cases b)
  fix m1 e1 m2 e2 assume a: "a = Dbl m1 e1" and b: "b = Dbl m2 e2"
  let ?e = "min e1 e2"
  let ?x = "Dbl (m1 * 2 ^ nat (e1 - ?e) + m2 * 2 ^ nat (e2 - ?e)) ?e"
  have "val ?x = val a + val b"
    by (simp add: a b val_plus val_align)
  moreover have "fadd a b = round53 ?x"
    by (simp add: a b fadd_def Let_def)
  ultimately show ?thesis
    using round53_error [of ?x] by simp
qed

lemma fsub_error: "\<bar>val (fsub a b) - (val a - val b)\<bar> \<le> \<bar>val a - val b\<bar> / 2 ^ 53"
proof (cases a; cases b)
  fix m1 e1 m2 e2 assume a: "a = Dbl m1 e1" and b: "b = Dbl m2 e2"
  let ?e = "min e1 e2"
  let ?x = "Dbl (m1 * 2 ^ nat (e1 - ?e) - m2 * 2 ^ nat (e2 - ?e)) ?e"
  have "val ?x = val a - val b"
    by (simp add: a b val_minus val_align)
  moreover have "fsub a b = round53 ?x"
    by (simp add: a b fsub_def Let_def)
  ultimately show ?thesis
    using round53_error [of ?x] by simp
qed

lemma fmul_error: "\<bar>val (fmul a b) - val a * val b\<bar> \<le> \<bar>val a * val b\<bar> / 2 ^ 53"
proof (cases a; cases b)
  fix m1 e1 m2 e2 assume a: "a = Dbl m1 e1" and b: "b = Dbl m2 e2"
  let ?x = "Dbl (m1 * m2) (e1 + e2)"
  have "val ?x = val a * val b"
    by (simp add: a b val_times)
  moreover have "fmul a b = round53 ?x"
    by (simp add: a b fmul_def)
  ultimately show ?thesis
    using round53_error [of ?x] by simp
qed

lemma float_of_int_exact:
  assumes "\<bar>i\<bar> < 2 ^ 53"
  shows "val (float_of_int i) = real_of_int i"
proof -
  have "bitlen \<bar>i\<bar> \<le> 53"
    using assms by (simp add: bitlen_le_iff_power)
  then show ?thesis
    by (simp add: float_of_int_def round53_def val_def)
qed


lemma flip_bound_real:
  fixes Y h H t1 t2 py ph u :: real
  assumes u0: "0 \<le> u" and u8: "u \<le> 1 / 8"
    and e1: "\<bar>t1 - (Y + h)\<bar> \<le> u * \<bar>Y + h\<bar>"
    and e2: "\<bar>t2 - (1 - t1)\<bar> \<le> u * \<bar>1 - t1\<bar>"
    and e3: "\<bar>py - t2 * H\<bar> \<le> u * \<bar>t2 * H\<bar>"
    and e4: "\<bar>ph - h * H\<bar> \<le> u * \<bar>h * H\<bar>"
  shows "\<bar>py + ph - (H - Y * H)\<bar> \<le> 5 * u * \<bar>H\<bar> * (1 + \<bar>Y\<bar> + \<bar>h\<bar>)"
proof -
  define A where "A = \<bar>Y\<bar> + \<bar>h\<bar>"
  define K where "K = 1 + A + u * A"
  define d1 where "d1 = t1 - (Y + h)"
  define d2 where "d2 = t2 - (1 - t1)"
  define d3 where "d3 = py - t2 * H"
  define d4 where "d4 = ph - h * H"
  have A0: "0 \<le> A" by (simp add: A_def)
  have K0: "0 \<le> K" using A0 u0 by (simp add: K_def)
  have sum: "\<bar>Y + h\<bar> \<le> A" by (simp add: A_def)
  have b1: "\<bar>d1\<bar> \<le> u * A"
  proof -
    have "u * \<bar>Y + h\<bar> \<le> u * A" using sum u0 by (rule mult_left_mono)
    with e1 show ?thesis by (simp add: d1_def)
  qed
  have t1: "t1 = (Y + h) + d1" by (simp add: d1_def)
  have t1b: "\<bar>t1\<bar> \<le> A + u * A"
  proof -
    have "\<bar>t1\<bar> \<le> \<bar>Y + h\<bar> + \<bar>d1\<bar>" unfolding t1 by (rule abs_triangle_ineq)
    with sum b1 show ?thesis by linarith
  qed
  have one: "\<bar>1 - t1\<bar> \<le> K"
  proof -
    have "\<bar>1 - t1\<bar> \<le> \<bar>1\<bar> + \<bar>t1\<bar>" by (rule abs_triangle_ineq4)
    with t1b show ?thesis by (simp add: K_def)
  qed
  have b2: "\<bar>d2\<bar> \<le> u * K"
  proof -
    have "u * \<bar>1 - t1\<bar> \<le> u * K" using one u0 by (rule mult_left_mono)
    with e2 show ?thesis by (simp add: d2_def)
  qed
  have t2: "t2 = (1 - t1) + d2" by (simp add: d2_def)
  have t2b: "\<bar>t2\<bar> \<le> K + u * K"
  proof -
    have "\<bar>t2\<bar> \<le> \<bar>1 - t1\<bar> + \<bar>d2\<bar>" unfolding t2 by (rule abs_triangle_ineq)
    with one b2 show ?thesis by linarith
  qed
  have b3: "\<bar>d3\<bar> \<le> u * ((K + u * K) * \<bar>H\<bar>)"
  proof -
    have "\<bar>t2 * H\<bar> = \<bar>t2\<bar> * \<bar>H\<bar>" by (rule abs_mult)
    also have "\<dots> \<le> (K + u * K) * \<bar>H\<bar>"
      using t2b by (rule mult_right_mono) simp
    finally have "u * \<bar>t2 * H\<bar> \<le> u * ((K + u * K) * \<bar>H\<bar>)"
      using u0 by (rule mult_left_mono)
    with e3 show ?thesis by (simp add: d3_def)
  qed
  have b4: "\<bar>d4\<bar> \<le> u * (A * \<bar>H\<bar>)"
  proof -
    have "\<bar>h\<bar> \<le> A" by (simp add: A_def)
    then have "\<bar>h\<bar> * \<bar>H\<bar> \<le> A * \<bar>H\<bar>" by (rule mult_right_mono) simp
    then have "\<bar>h * H\<bar> \<le> A * \<bar>H\<bar>" by (simp add: abs_mult)
    then have "u * \<bar>h * H\<bar> \<le> u * (A * \<bar>H\<bar>)" using u0 by (rule mult_left_mono)
    with e4 show ?thesis by (simp add: d4_def)
  qed
  have b21: "\<bar>(d2 - d1) * H\<bar> \<le> (u * K + u * A) * \<bar>H\<bar>"
  proof -
    have "\<bar>d2 - d1\<bar> \<le> \<bar>d2\<bar> + \<bar>d1\<bar>" by (rule abs_triangle_ineq4)
    with b1 b2 have "\<bar>d2 - d1\<bar> \<le> u * K + u * A" by linarith
    then have "\<bar>d2 - d1\<bar> * \<bar>H\<bar> \<le> (u * K + u * A) * \<bar>H\<bar>"
      by (rule mult_right_mono) simp
    then show ?thesis by (simp add: abs_mult)
  qed
  have split: "py + ph - (H - Y * H) = d3 + d4 + (d2 - d1) * H"
    by (simp add: d1_def d2_def d3_def d4_def algebra_simps)
  have "\<bar>py + ph - (H - Y * H)\<bar> \<le> \<bar>d3\<bar> + \<bar>d4\<bar> + \<bar>(d2 - d1) * H\<bar>"
    unfolding split by (intro order_trans [OF abs_triangle_ineq] add_mono order_refl abs_triangle_ineq)
  also have "\<dots> \<le> u * ((K + u * K) * \<bar>H\<bar>) + u * (A * \<bar>H\<bar>) + (u * K + u * A) * \<bar>H\<bar>"
    using b3 b4 b21 by linarith
  also have "\<dots> = u * \<bar>H\<bar> * ((2 + u) * K + 2 * A)"
    by (simp add: algebra_simps)
  also have "\<dots> \<le> u * \<bar>H\<bar> * (5 * (1 + A))"
  proof (rule mult_left_mono)
    have "(1 + u) * (2 + u) \<le> (9 / 8) * (17 / 8)"
      using u0 u8 by (intro mult_mono) simp_all
    then have c: "(1 + u) * (2 + u) \<le> 3" by simp
    have "(2 + u) * K = (2 + u) + ((1 + u) * (2 + u)) * A"
      by (simp add: K_def algebra_simps)
    also have "\<dots> \<le> (2 + u) + 3 * A"
      using c A0 by (simp add: mult_right_mono)
    finally show "(2 + u) * K + 2 * A \<le> 5 * (1 + A)"
      using u8 by simp
    show "0 \<le> u * \<bar>H\<bar>" using u0 by simp
  qed
  finally show ?thesis
    by (simp add: A_def algebra_simps)
qed


section \<open>The coordinate mapping\<close>

text \<open>
  C1, as stated, fails in floating point. For the box with y = 0.1 and h = 0.7 (the
  doubles nearest to these) and H = 3 the mapping gives pixelY = 0.6000000000000002
  and pixelH = 2.0999999999999996, whose exact sum is not H - b.y * H; computed in
  floating point, pixelY + pixelH is 2.6999999999999997 and H - b.y * H is 2.7.
\<close>

theorem to_pixel_rect_flip_counterexample:
  "val (py (to_pixel_rect
         \<lparr> box_x = Dbl 3602879701896397 (- 55), box_y = Dbl 3602879701896397 (- 55),
           box_w = Dbl 3602879701896397 (- 55), box_h = Dbl 3152519739159347 (- 52) \<rparr> 3 3))
     + val (ph (to_pixel_rect
         \<lparr> box_x = Dbl 3602879701896397 (- 55), box_y = Dbl 3602879701896397 (- 55),
           box_w = Dbl 3602879701896397 (- 55), box_h = Dbl 3152519739159347 (- 52) \<rparr> 3 3))
     \<noteq> real_of_int 3 - val (Dbl 3602879701896397 (- 55)) * real_of_int 3 \<and>
   val (fadd
         (py (to_pixel_rect
           \<lparr> box_x = Dbl 3602879701896397 (- 55), box_y = Dbl 3602879701896397 (- 55),
             box_w = Dbl 3602879701896397 (- 55), box_h = Dbl 3152519739159347 (- 52) \<rparr> 3 3))
         (ph (to_pixel_rect
           \<lparr> box_x = Dbl 3602879701896397 (- 55), box_y = Dbl 3602879701896397 (- 55),
             box_w = Dbl 3602879701896397 (- 55), box_h = Dbl 3152519739159347 (- 52) \<rparr> 3 3)))
     \<noteq> val (fsub (float_of_int 3) (fmul (Dbl 3602879701896397 (- 55)) (float_of_int 3)))"
proof -
  let ?b = "\<lparr> box_x = Dbl 3602879701896397 (- 55), box_y = Dbl 3602879701896397 (- 55),
             box_w = Dbl 3602879701896397 (- 55), box_h = Dbl 3152519739159347 (- 52) \<rparr>"
  have y: "py (to_pixel_rect ?b 3 3) = Dbl 5404319552844597 (- 53)"
    by code_simp
  have h: "ph (to_pixel_rect ?b 3 3) = Dbl 4728779608739020 (- 51)"
    by code_simp
  have l: "fadd (Dbl 5404319552844597 (- 53)) (Dbl 4728779608739020 (- 51))
             = Dbl 6079859496950169 (- 51)"
    by code_simp
  have r: "fsub (float_of_int 3) (fmul (Dbl 3602879701896397 (- 55)) (float_of_int 3))
             = Dbl 6079859496950170 (- 51)"
    by code_simp
  show ?thesis
    unfolding y h l r by (simp add: val_def)
qed

text \<open>
  C1, amended. For every normalized box b and image dimensions (W, H), the coordinate
  mapping computes, in double-precision arithmetic, pixelX = b.x * W,
  pixelY = (1.0 - (b.y + b.h)) * H, pixelW = b.w * W and pixelH = b.h * H, each operation
  rounded to the nearest double. Consequently pixelX is b.x * W (the horizontal
  preservation), and for a height below 2^53 the vertical flip holds up to rounding: the
  exact sum pixelY + pixelH differs from H - b.y * H by at most
  5 * 2^-53 * |H| * (1 + |b.y| + |b.h|).
\<close>

theorem to_pixel_rect_flip:
  "px (to_pixel_rect b W H) = fmul (box_x b) (float_of_int W) \<and>
   py (to_pixel_rect b W H) = fmul (fsub (Dbl 1 0) (fadd (box_y b) (box_h b))) (float_of_int H) \<and>
   pw (to_pixel_rect b W H) = fmul (box_w b) (float_of_int W) \<and>
   ph (to_pixel_rect b W H) = fmul (box_h b) (float_of_int H) \<and>
   (\<bar>H\<bar> < 2 ^ 53 \<longrightarrow>
      \<bar>val (py (to_pixel_rect b W H)) + val (ph (to_pixel_rect b W H))
         - (real_of_int H - val (box_y b) * real_of_int H)\<bar>
        \<le> 5 * (1 / 2 ^ 53) * \<bar>real_of_int H\<bar> * (1 + \<bar>val (box_y b)\<bar> + \<bar>val (box_h b)\<bar>))"
proof (intro conjI impI)
  assume H: "\<bar>H\<bar> < 2 ^ 53"
  define t1 where "t1 = fadd (box_y b) (box_h b)"
  define t2 where "t2 = fsub (Dbl 1 0) t1"
  have Hv: "val (float_of_int H) = real_of_int H"
    using H by (rule float_of_int_exact)
  have one: "val (Dbl 1 0) = 1"
    by (simp add: val_def)
  have e1: "\<bar>val t1 - (val (box_y b) + val (box_h b))\<bar>
              \<le> (1 / 2 ^ 53) * \<bar>val (box_y b) + val (box_h b)\<bar>"
    using fadd_error [of "box_y b" "box_h b"] by (simp add: t1_def)
  have e2: "\<bar>val t2 - (1 - val t1)\<bar> \<le> (1 / 2 ^ 53) * \<bar>1 - val t1\<bar>"
    using fsub_error [of "Dbl 1 0" t1] by (simp add: t2_def one)
  have e3: "\<bar>val (fmul t2 (float_of_int H)) - val t2 * real_of_int H\<bar>
              \<le> (1 / 2 ^ 53) * \<bar>val t2 * real_of_int H\<bar>"
    using fmul_error [of t2 "float_of_int H"] by (simp add: Hv)
  have e4: "\<bar>val (fmul (box_h b) (float_of_int H)) - val (box_h b) * real_of_int H\<bar>
              \<le> (1 / 2 ^ 53) * \<bar>val (box_h b) * real_of_int H\<bar>"
    using fmul_error [of "box_h b" "float_of_int H"] by (simp add: Hv)
  have u0: "(0::real) \<le> 1 / 2 ^ 53" and u8: "(1::real) / 2 ^ 53 \<le> 1 / 8"
    by simp_all
  have "\<bar>val (fmul t2 (float_of_int H)) + val (fmul (box_h b) (float_of_int H))
          - (real_of_int H - val (box_y b) * real_of_int H)\<bar>
        \<le> 5 * (1 / 2 ^ 53) * \<bar>real_of_int H\<bar> * (1 + \<bar>val (box_y b)\<bar> + \<bar>val (box_h b)\<bar>)"
    using u0 u8 e1 e2 e3 e4 by (rule flip_bound_real)
  then show "\<bar>val (py (to_pixel_rect b W H)) + val (ph (to_pixel_rect b W H))
         - (real_of_int H - val (box_y b) * real_of_int H)\<bar>
        \<le> 5 * (1 / 2 ^ 53) * \<bar>real_of_int H\<bar> * (1 + \<bar>val (box_y b)\<bar> + \<bar>val (box_h b)\<bar>)"
    by (simp add: to_pixel_rect_def t1_def t2_def)
qed (simp_all add: to_pixel_rect_def)

text \<open>
  The box of the example above: the bound holds where the exact identity fails.
\<close>

theorem to_pixel_rect_flip_witness:
  "\<bar>val (py (to_pixel_rect
         \<lparr> box_x = Dbl 3602879701896397 (- 55), box_y = Dbl 3602879701896397 (- 55),
           box_w = Dbl 3602879701896397 (- 55), box_h = Dbl 3152519739159347 (- 52) \<rparr> 3 3))
     + val (ph (to_pixel_rect
         \<lparr> box_x = Dbl 3602879701896397 (- 55), box_y = Dbl 3602879701896397 (- 55),
           box_w = Dbl 3602879701896397 (- 55), box_h = Dbl 3152519739159347 (- 52) \<rparr> 3 3))
     - (real_of_int 3 - val (Dbl 3602879701896397 (- 55)) * real_of_int 3)\<bar>
     \<le> 5 * (1 / 2 ^ 53) * \<bar>real_of_int 3\<bar>
         * (1 + \<bar>val (Dbl 3602879701896397 (- 55))\<bar> + \<bar>val (Dbl 3152519739159347 (- 52))\<bar>)"
proof -
  have small: "\<bar>3::int\<bar> < 2 ^ 53"
    by simp
  note bound = to_pixel_rect_flip
      [of "\<lparr> box_x = Dbl 3602879701896397 (- 55), box_y = Dbl 3602879701896397 (- 55),
             box_w = Dbl 3602879701896397 (- 55), box_h = Dbl 3152519739159347 (- 52) \<rparr>" 3 3,
       THEN conjunct2, THEN conjunct2, THEN conjunct2, THEN conjunct2]
  from bound small show ?thesis
    by (simp only: box.simps mp)
qed

section \<open>The worker pool returns results by index\<close>

lemma length_fold_complete: "length (fold (complete_task job) order slots) = length slots"
  by (induction order arbitrary: slots) (simp_all add: complete_task_def)

lemma nth_fold_complete:
  "i < length slots \<Longrightarrow>
   fold (complete_task job) order slots ! i
     = (if i \<in> set order then Some (job i) else slots ! i)"
proof (induction order arbitrary: slots)
  case Nil
  then show ?case by simp
next
  case (Cons k order)
  have len: "i < length (complete_task job k slots)"
    using Cons.prems by (simp add: complete_task_def)
  have step: "complete_task job k slots ! i = (if i = k then Some (job i) else slots ! i)"
    using Cons.prems by (simp add: complete_task_def nth_list_update)
  show ?case
    using Cons.IH [OF len] step by auto
qed

lemma those_map_Some: "those (map Some ys) = Some ys"
  by (induction ys) simp_all

lemma run_pool_all:
  assumes "{0..<n} \<subseteq> set order"
  shows "run_pool job n order = map (\<lambda>i. Some (job i)) [0..<n]"
proof (rule nth_equalityI)
  show "length (run_pool job n order) = length (map (\<lambda>i. Some (job i)) [0..<n])"
    by (simp add: run_pool_def length_fold_complete)
next
  fix i assume "i < length (run_pool job n order)"
  then have i: "i < n" by (simp add: run_pool_def length_fold_complete)
  then have "i \<in> set order" using assms by auto
  with i show "run_pool job n order ! i = map (\<lambda>i. Some (job i)) [0..<n] ! i"
    by (simp add: run_pool_def nth_fold_complete)
qed

lemma executor_map_ordered:
  assumes "{0..<length xs} \<subseteq> set order"
  shows "executor_map f xs order = Some (map (\<lambda>i. f i (xs ! i)) [0..<length xs])"
proof -
  have "run_pool (\<lambda>i. f i (xs ! i)) (length xs) order
          = map Some (map (\<lambda>i. f i (xs ! i)) [0..<length xs])"
    by (simp add: run_pool_all [OF assms] comp_def)
  then show ?thesis
    by (simp only: executor_map_def those_map_Some)
qed

lemma set_completion_order: "set (completion_order lat n) = {0..<n}"
  by (simp add: completion_order_def)

lemma translate_all_ordered:
  assumes "{0..<length results} \<subseteq> set order"
  shows "translate_all tr order results
           = Some (map (\<lambda>i. translate_fragment (tr i) (item_text (results ! i)))
                     [0..<length results])"
proof -
  have "{0..<length (map item_text results)} \<subseteq> set order"
    using assms by simp
  then have "executor_map (\<lambda>i. translate_fragment (tr i)) (map item_text results) order
          = Some (map (\<lambda>i. translate_fragment (tr i) (map item_text results ! i))
                    [0..<length (map item_text results)])"
    by (rule executor_map_ordered)
  moreover have "map (\<lambda>i. translate_fragment (tr i) (map item_text results ! i))
                   [0..<length (map item_text results)]
               = map (\<lambda>i. translate_fragment (tr i) (item_text (results ! i)))
                   [0..<length results]"
    by (rule map_cong) simp_all
  ultimately show ?thesis
    by (simp add: translate_all_def Let_def)
qed

lemma translate_all_completion:
  "translate_all tr (completion_order lat (length results)) results
     = Some (map (\<lambda>i. translate_fragment (tr i) (item_text (results ! i)))
               [0..<length results])"
  by (rule translate_all_ordered) (simp add: set_completion_order)

text \<open>
  C2. For every sequence of n fragments and every order in which the concurrent
  translation tasks finish (every task finishes at some point of the order), the
  translation stage returns exactly n results, and result i is what
  \<open>_translate_fragment\<close> gives for fragment i with the answer the collaborator gave to
  task i: the translation or the text passed through. Results are matched by index, so
  two fragments with the same string each get the result of their own task.
\<close>

theorem translate_all_by_index:
  assumes "{0..<length results} \<subseteq> set order"
  shows "\<exists>rs. translate_all tr order results = Some rs \<and> length rs = length results \<and>
           (\<forall>i<length results. rs ! i = translate_fragment (tr i) (item_text (results ! i)))"
  by (simp add: translate_all_ordered [OF assms])

text \<open>
  Two fragments with the same string "Hello"; the task of the second finishes first and
  fails, the task of the first succeeds. Each result stays at the index of its fragment.
\<close>

theorem translate_all_by_index_witness:
  "\<exists>rs. translate_all flaky [1, 0] [hello_item, hello_item2] = Some rs \<and> length rs = 2 \<and>
         fst (rs ! 0) = konnichiwa \<and> fst (rs ! 1) = hello"
proof -
  have all: "{0..<length [hello_item, hello_item2]} \<subseteq> set [1, 0::nat]"
    by auto
  from translate_all_by_index [OF all, of flaky]
  obtain rs where rs: "translate_all flaky [1, 0] [hello_item, hello_item2] = Some rs"
    and len: "length rs = 2"
    and nth: "\<forall>i<2. rs ! i
                = translate_fragment (flaky i) (item_text ([hello_item, hello_item2] ! i))"
    by auto
  have "rs ! 0 = translate_fragment (flaky 0) hello"
    using nth by (simp add: hello_item_def)
  moreover have "rs ! 1 = translate_fragment (flaky 1) hello"
    using nth by (simp add: hello_item2_def)
  moreover have "re_search ja_ranges hello = None"
    by (simp add: re_search_def hello_def in_class_def ja_ranges_def)
  ultimately have "fst (rs ! 0) = konnichiwa \<and> fst (rs ! 1) = hello"
    by (simp add: translate_fragment_def flaky_def Let_def)
  with rs len show ?thesis by blast
qed

section \<open>A failed translation call\<close>

lemma translate_fragment_failed:
  "tr \<lparr> call_source = ''auto'', call_target = ''ja'', call_text = s \<rparr> = Inl e \<Longrightarrow>
   fst (translate_fragment tr s) = s"
  by (simp add: translate_fragment_def Let_def)

text \<open>
  C3. If the call of the translation collaborator for fragment k raises, the batch is
  not aborted: the stage still returns n results, the result of fragment k is its source
  text, and the results of all other fragments are unaffected: they are the same as in
  any run that differs only in what the collaborator answers to task k. The stage
  returns a value on every path: \<open>_translate_fragment\<close> catches the exception, so none
  leaves the stage.
\<close>

theorem translate_all_failure_isolated:
  assumes order: "{0..<length results} \<subseteq> set order"
    and k: "k < length results"
    and fails: "tr k \<lparr> call_source = ''auto'', call_target = ''ja'',
                       call_text = item_text (results ! k) \<rparr> = Inl e"
  shows "\<exists>rs. translate_all tr order results = Some rs \<and> length rs = length results \<and>
           fst (rs ! k) = item_text (results ! k) \<and>
           (\<forall>tr'. (\<forall>i. i \<noteq> k \<longrightarrow> tr' i = tr i) \<longrightarrow>
              (\<exists>rs'. translate_all tr' order results = Some rs' \<and>
                 length rs' = length results \<and>
                 (\<forall>i<length results. i \<noteq> k \<longrightarrow> rs' ! i = rs ! i)))"
proof -
  have "fst (translate_fragment (tr k) (item_text (results ! k))) = item_text (results ! k)"
    using fails by (rule translate_fragment_failed)
  with k show ?thesis
    by (simp add: translate_all_ordered [OF order])
qed

text \<open>
  The task of the second fragment fails: its result is "Hello", and the result of the
  first is the same as in the run where no call fails.
\<close>

theorem translate_all_failure_isolated_witness:
  "\<exists>rs. translate_all flaky [1, 0] [hello_item, hello_item2] = Some rs \<and> length rs = 2 \<and>
         fst (rs ! 1) = hello \<and>
         (\<exists>rs'. translate_all (\<lambda>i. if i = 0 then (\<lambda>c. Inr konnichiwa) else flaky i)
                  [1, 0] [hello_item, hello_item2] = Some rs' \<and>
                rs' ! 0 = rs ! 0)"
proof -
  have all: "{0..<length [hello_item, hello_item2]} \<subseteq> set [1, 0::nat]"
    by auto
  have k: "1 < length [hello_item, hello_item2]"
    by simp
  have fails: "flaky 1 \<lparr> call_source = ''auto'', call_target = ''ja'',
                          call_text = item_text ([hello_item, hello_item2] ! 1) \<rparr>
                 = Inl (Exception ''timed out'')"
    by (simp add: flaky_def)
  from translate_all_failure_isolated
         [where tr = flaky and k = 1 and order = "[1, 0]"
            and results = "[hello_item, hello_item2]", OF all k fails]
  obtain rs where rs: "translate_all flaky [1, 0] [hello_item, hello_item2] = Some rs"
    and len: "length rs = 2"
    and k_text: "fst (rs ! 1) = item_text ([hello_item, hello_item2] ! 1)"
    and others: "\<forall>tr'. (\<forall>i. i \<noteq> 1 \<longrightarrow> tr' i = flaky i) \<longrightarrow>
              (\<exists>rs'. translate_all tr' [1, 0] [hello_item, hello_item2] = Some rs' \<and>
                 length rs' = length [hello_item, hello_item2] \<and>
                 (\<forall>i<length [hello_item, hello_item2]. i \<noteq> 1 \<longrightarrow> rs' ! i = rs ! i))"
    by auto
  have same: "\<forall>i. i \<noteq> 1 \<longrightarrow> (if i = 0 then (\<lambda>c. Inr konnichiwa) else flaky i) = flaky i"
    by (auto simp: flaky_def fun_eq_iff)
  have "\<exists>rs'. translate_all (\<lambda>i. if i = 0 then (\<lambda>c. Inr konnichiwa) else flaky i)
                 [1, 0] [hello_item, hello_item2] = Some rs' \<and> rs' ! 0 = rs ! 0"
    using others same by (auto simp del: One_nat_def)
  with rs len k_text show ?thesis
    by (auto simp: hello_item2_def)
qed

section \<open>The skip rule\<close>

lemma re_search_None_iff: "re_search rs s = None \<longleftrightarrow> (\<forall>c\<in>set s. \<not> in_class rs c)"
  by (auto simp: re_search_def find_None_iff)

lemma in_class_ja:
  "in_class ja_ranges c \<longleftrightarrow>
     (0x3040 \<le> c \<and> c \<le> 0x309F) \<or> (0x30A0 \<le> c \<and> c \<le> 0x30FF) \<or> (0x4E00 \<le> c \<and> c \<le> 0x9FFF)"
  by (simp add: in_class_def ja_ranges_def)

text \<open>
  C4. For every fragment whose text contains at least one character of the target
  script's ranges, the translation stage returns that text unchanged and makes no call
  of the translation collaborator for that fragment, whatever the other fragments are.
\<close>

theorem translate_all_skips_target_script:
  assumes order: "{0..<length results} \<subseteq> set order"
    and k: "k < length results"
    and ja: "\<exists>c\<in>set (item_text (results ! k)). in_class ja_ranges c"
  shows "\<exists>rs. translate_all tr order results = Some rs \<and> length rs = length results \<and>
           rs ! k = (item_text (results ! k), [])"
proof -
  have "re_search ja_ranges (item_text (results ! k)) \<noteq> None"
    using ja by (simp add: re_search_None_iff)
  then have "translate_fragment (tr k) (item_text (results ! k)) = (item_text (results ! k), [])"
    by (simp add: translate_fragment_def)
  with k show ?thesis
    by (simp add: translate_all_ordered [OF order])
qed

text \<open>A string that mixes the Latin letter H with hiragana is passed through.\<close>

theorem translate_all_skips_target_script_witness:
  "\<exists>rs. translate_all (\<lambda>i c. Inr hello) [0, 1]
           [hello_item, \<lparr> item_text = 72 # konnichiwa, item_box = item_box hello_item \<rparr>]
           = Some rs \<and>
         length rs = 2 \<and> rs ! 1 = (72 # konnichiwa, [])"
proof -
  let ?results =
    "[hello_item, \<lparr> item_text = 72 # konnichiwa, item_box = item_box hello_item \<rparr>]"
  have all: "{0..<length ?results} \<subseteq> set [0, 1::nat]"
    by auto
  have k: "1 < length ?results"
    by simp
  have ja: "\<exists>c\<in>set (item_text (?results ! 1)). in_class ja_ranges c"
    by (simp add: konnichiwa_def in_class_def ja_ranges_def)
  from translate_all_skips_target_script
         [where k = 1 and order = "[0, 1]" and results = ?results
            and tr = "\<lambda>i c. Inr hello", OF all k ja]
  show ?thesis by (simp add: numeral_2_eq_2)
qed

section \<open>Every run returns a result\<close>

lemma capture_body_returns: "\<exists>r s'. capture_body E A s = Some (r, s')"
  by (simp add: capture_body_def Let_def translate_all_completion
        split: prod.split proc.split option.split sum.split)

lemma capture_body_value:
  "capture_body E A s = Some (Inr v, s') \<Longrightarrow>
   (\<exists>d. v = Image (''data:image/png;base64,'' @ d)) \<or> (\<exists>m. v = Error m)"
  by (auto simp: capture_body_def Let_def translate_all_completion
        split: prod.splits proc.splits option.splits sum.splits if_splits)

lemma capture_and_translate_returns:
  "\<exists>r s'. capture_and_translate E A s = Some (Inr r, s') \<and>
     ((\<exists>d. r = Image (''data:image/png;base64,'' @ d)) \<or> (\<exists>m. r = Error m))"
proof -
  obtain r s' where body: "capture_body E A s = Some (r, s')"
    using capture_body_returns by blast
  show ?thesis
  proof (cases r)
    case (Inl e)
    with body show ?thesis
      by (cases e) (simp_all add: capture_and_translate_def)
  next
    case (Inr v)
    with body have "capture_and_translate E A s = Some (Inr v, s')"
      by (simp add: capture_and_translate_def)
    moreover have "(\<exists>d. v = Image (''data:image/png;base64,'' @ d)) \<or> (\<exists>m. v = Error m)"
    proof (rule capture_body_value)
      show "capture_body E A s = Some (Inr v, s')"
        using body Inr by simp
    qed
    ultimately show ?thesis by blast
  qed
qed

text \<open>
  C8. For every behaviour of the collaborators (capture, OCR, translation, image
  processing), every \<open>API\<close> object and every state of the capture file,
  \<open>capture_and_translate\<close> returns, and what it returns is a value, either
  \<open>{"image": "data:image/png;base64,..."}\<close> or \<open>{"error": message}\<close>: every exception
  raised at any stage is caught by one of the two handlers and turned into an error
  result, so none reaches the caller.
\<close>

theorem capture_and_translate_total:
  "\<exists>r s'. capture_and_translate E A s = Some (Inr r, s') \<and>
     ((\<exists>d. r = Image (''data:image/png;base64,'' @ d)) \<or> (\<exists>m. r = Error m))"
  by (rule capture_and_translate_returns)

text \<open>A run in which the Vision request raises: the message of the exception is returned.\<close>

theorem capture_and_translate_total_witness:
  "\<exists>s'. capture_and_translate
          (example_env (\<lambda>f. (Exited 0, Some 7)) (\<lambda>img. OcrRaise (Exception ''no engine''))
             flaky)
          no_font_api fresh = Some (Inr (Error ''no engine''), s')"
proof -
  let ?E = "example_env (\<lambda>f. (Exited 0, Some 7)) (\<lambda>img. OcrRaise (Exception ''no engine''))
              flaky"
  from capture_and_translate_total [of ?E no_font_api fresh]
  obtain r s' where run: "capture_and_translate ?E no_font_api fresh = Some (Inr r, s')"
    by blast
  moreover have "capture_body ?E no_font_api fresh
      = Some (Inl (Exception ''no engine''), fresh\<lparr>temp_file := Some 7, ocr_runs := 1\<rparr>)"
    by (simp add: capture_body_def example_env_def fresh_def ocr_vision_def py_not_def)
  ultimately have "r = Error ''no engine''"
    by (simp add: capture_and_translate_def)
  with run show ?thesis by blast
qed

section \<open>Locales of the translation calls and the ranges of the skip rule\<close>

lemma translate_fragment_calls:
  "c \<in> set (snd (translate_fragment tr t)) \<Longrightarrow>
   call_source c = ''auto'' \<and> call_target c = ''ja''"
  by (auto simp: translate_fragment_def Let_def split: if_splits sum.splits)

lemma capture_body_log:
  "capture_body E A s = Some (r, s') \<Longrightarrow>
   \<exists>new. tr_log s' = tr_log s @ new \<and>
     (\<forall>cs\<in>set new. \<forall>c\<in>set cs. call_source c = ''auto'' \<and> call_target c = ''ja'')"
  by (auto simp: capture_body_def Let_def translate_all_completion cleanup_def
        split: prod.splits proc.splits option.splits sum.splits if_splits
        dest: translate_fragment_calls)

lemma capture_and_translate_body:
  "capture_and_translate E A s = Some (r, s') \<Longrightarrow> \<exists>r0. capture_body E A s = Some (r0, s')"
  by (auto simp: capture_and_translate_def
        split: option.splits sum.splits exn.splits prod.splits)

text \<open>
  C9. Every call of the translation collaborator that a run makes has source locale
  "auto" and target locale "ja"; \<open>capture_and_translate\<close> takes no locale, so this holds
  of every run. The skip rule matches exactly the strings with a character in
  U+3040 to U+309F (hiragana), U+30A0 to U+30FF (katakana) or U+4E00 to U+9FFF (CJK
  unified ideographs), so a non-empty string of CJK ideographs alone is passed through
  with no call.
\<close>

theorem translation_locale_fixed:
  "(\<exists>r s' new. capture_and_translate E A s = Some (r, s') \<and> tr_log s' = tr_log s @ new \<and>
      (\<forall>cs\<in>set new. \<forall>c\<in>set cs. call_source c = ''auto'' \<and> call_target c = ''ja'')) \<and>
   (re_search ja_ranges t \<noteq> None \<longleftrightarrow>
      (\<exists>c\<in>set t. (0x3040 \<le> c \<and> c \<le> 0x309F) \<or> (0x30A0 \<le> c \<and> c \<le> 0x30FF)
                   \<or> (0x4E00 \<le> c \<and> c \<le> 0x9FFF))) \<and>
   (t \<noteq> [] \<and> (\<forall>c\<in>set t. 0x4E00 \<le> c \<and> c \<le> 0x9FFF) \<longrightarrow>
      translate_fragment tr t = (t, []))"
proof (intro conjI)
  obtain r s' where run: "capture_and_translate E A s = Some (Inr r, s')"
    using capture_and_translate_returns by blast
  then obtain r0 where "capture_body E A s = Some (r0, s')"
    using capture_and_translate_body by blast
  from capture_body_log [OF this] run
  show "\<exists>r s' new. capture_and_translate E A s = Some (r, s') \<and> tr_log s' = tr_log s @ new \<and>
      (\<forall>cs\<in>set new. \<forall>c\<in>set cs. call_source c = ''auto'' \<and> call_target c = ''ja'')"
    by blast
next
  show "re_search ja_ranges t \<noteq> None \<longleftrightarrow>
      (\<exists>c\<in>set t. (0x3040 \<le> c \<and> c \<le> 0x309F) \<or> (0x30A0 \<le> c \<and> c \<le> 0x30FF)
                   \<or> (0x4E00 \<le> c \<and> c \<le> 0x9FFF))"
    by (simp add: re_search_None_iff in_class_ja)
next
  show "t \<noteq> [] \<and> (\<forall>c\<in>set t. 0x4E00 \<le> c \<and> c \<le> 0x9FFF) \<longrightarrow>
      translate_fragment tr t = (t, [])"
  proof
    assume h: "t \<noteq> [] \<and> (\<forall>c\<in>set t. 0x4E00 \<le> c \<and> c \<le> 0x9FFF)"
    then obtain c where "c \<in> set t" by (cases t) auto
    with h have "\<exists>c\<in>set t. in_class ja_ranges c"
      by (auto simp: in_class_ja)
    then have "re_search ja_ranges t \<noteq> None"
      by (simp add: re_search_None_iff)
    then show "translate_fragment tr t = (t, [])"
      by (simp add: translate_fragment_def)
  qed
qed

text \<open>The two ideographs U+4E2D U+6587 are passed through with no call.\<close>

theorem translation_locale_fixed_witness:
  "re_search ja_ranges [0x4E2D, 0x6587] \<noteq> None \<and>
   translate_fragment (flaky 0) [0x4E2D, 0x6587] = ([0x4E2D, 0x6587], [])"
  using translation_locale_fixed
    [of "example_env (\<lambda>f. (Exited 1, f)) (\<lambda>img. OcrDone True (Some [])) flaky" no_font_api fresh
        "[0x4E2D, 0x6587]" "flaky 0"]
  by simp

section \<open>Engine failure and empty result\<close>

lemma ocr_vision_flag_unused: "ocr_vision (OcrDone ok results) = ocr_vision (OcrDone ok' results)"
  by (simp add: ocr_vision_def py_not_def)

lemma not_iterable_other: "not_iterable \<noteq> ''No text detected''"
  by (simp add: not_iterable_def)

text \<open>
  C5. Fragment extraction tells an engine-level failure from an empty result. When the
  OCR engine reports failure (the request returns false and leaves its results nil),
  extraction yields an error: \<open>_ocr_vision\<close> raises, and the run returns that exception's
  message as its error. When the request succeeds with zero detected regions, extraction
  yields the empty sequence and no error, and the run returns "No text detected". The
  two results differ, so the caller can tell the two conditions apart. The error comes
  from the loop of line 147 over the nil results; the guard of line 142 is never taken,
  because the pair it tests is not empty (\<open>ocr_vision_flag_unused\<close>).
\<close>

theorem ocr_failure_told_apart:
  assumes "screencapture E (temp_file s) = (Exited 0, Some img)"
  shows "(vision E img = OcrDone False None \<longrightarrow>
            ocr_vision (vision E img) = Inl (Exception not_iterable) \<and>
            capture_and_translate E A s
              = Some (Inr (Error not_iterable),
                      s\<lparr>temp_file := Some img, ocr_runs := Suc (ocr_runs s)\<rparr>)) \<and>
         (vision E img = OcrDone True (Some []) \<longrightarrow>
            ocr_vision (vision E img) = Inr [] \<and>
            capture_and_translate E A s
              = Some (Inr (Error ''No text detected''),
                      s\<lparr>temp_file := Some img, ocr_runs := Suc (ocr_runs s)\<rparr>)) \<and>
         Error not_iterable \<noteq> Error ''No text detected''"
proof (intro conjI impI)
  assume "vision E img = OcrDone False None"
  then show "ocr_vision (vision E img) = Inl (Exception not_iterable)"
    by (simp add: ocr_vision_def py_not_def)
  with assms show "capture_and_translate E A s
      = Some (Inr (Error not_iterable),
              s\<lparr>temp_file := Some img, ocr_runs := Suc (ocr_runs s)\<rparr>)"
    by (simp add: capture_and_translate_def capture_body_def)
next
  assume "vision E img = OcrDone True (Some [])"
  then show "ocr_vision (vision E img) = Inr []"
    by (simp add: ocr_vision_def py_not_def)
  with assms show "capture_and_translate E A s
      = Some (Inr (Error ''No text detected''),
              s\<lparr>temp_file := Some img, ocr_runs := Suc (ocr_runs s)\<rparr>)"
    by (simp add: capture_and_translate_def capture_body_def)
next
  show "Error not_iterable \<noteq> Error ''No text detected''"
    by (simp add: not_iterable_other)
qed

text \<open>A run whose request fails, and a run whose request finds no region.\<close>

theorem ocr_failure_told_apart_witness:
  "capture_and_translate
     (example_env (\<lambda>f. (Exited 0, Some 7)) (\<lambda>img. OcrDone False None) flaky) no_font_api fresh
     = Some (Inr (Error not_iterable), fresh\<lparr>temp_file := Some 7, ocr_runs := 1\<rparr>) \<and>
   capture_and_translate
     (example_env (\<lambda>f. (Exited 0, Some 7)) (\<lambda>img. OcrDone True (Some [])) flaky)
     no_font_api fresh
     = Some (Inr (Error ''No text detected''), fresh\<lparr>temp_file := Some 7, ocr_runs := 1\<rparr>)"
proof -
  let ?F = "example_env (\<lambda>f. (Exited 0, Some 7)) (\<lambda>img. OcrDone False None) flaky"
  let ?Z = "example_env (\<lambda>f. (Exited 0, Some 7)) (\<lambda>img. OcrDone True (Some [])) flaky"
  have capF: "screencapture ?F (temp_file fresh) = (Exited 0, Some 7)"
    by (simp add: example_env_def)
  have capZ: "screencapture ?Z (temp_file fresh) = (Exited 0, Some 7)"
    by (simp add: example_env_def)
  have failed: "vision ?F 7 = OcrDone False None"
    by (simp add: example_env_def)
  have empty: "vision ?Z 7 = OcrDone True (Some [])"
    by (simp add: example_env_def)
  note f = ocr_failure_told_apart [OF capF, of no_font_api, THEN conjunct1, THEN mp, OF failed,
             THEN conjunct2]
  note z = ocr_failure_told_apart [OF capZ, of no_font_api, THEN conjunct2, THEN conjunct1,
             THEN mp, OF empty, THEN conjunct2]
  from f z show ?thesis
    by (simp add: fresh_def)
qed

section \<open>The capture file after a run\<close>

lemma success_removes_capture_file:
  "capture_and_translate E A s = Some (Inr (Image d), s') \<Longrightarrow> temp_file s' = None"
  by (auto simp: capture_and_translate_def capture_body_def Let_def cleanup_def
        translate_all_completion
        split: prod.splits proc.splits option.splits sum.splits if_splits exn.splits)

lemma capture_cancelled_nonzero:
  "screencapture E (temp_file s) = (Exited rc, f) \<Longrightarrow> rc \<noteq> 0 \<Longrightarrow>
   capture_and_translate E A s = Some (Inr (Error ''Capture cancelled''), s\<lparr>temp_file := f\<rparr>)"
  by (simp add: capture_and_translate_def capture_body_def)

lemma capture_cancelled_no_file:
  "screencapture E (temp_file s) = (Exited 0, None) \<Longrightarrow>
   capture_and_translate E A s
     = Some (Inr (Error ''Canceled or failed to capture''), s\<lparr>temp_file := None\<rparr>)"
  by (simp add: capture_and_translate_def capture_body_def)

text \<open>
  What a leftover file does to the next run: the first run finds no text and leaves its
  file; in the second the user aborts the selection, the capture process exits with
  status 0 and writes nothing. The test of line 62 finds the old file, and the run
  recognises it again instead of returning "Canceled or failed to capture".
\<close>

lemma stale_file_defeats_abort_detection:
  "\<exists>s1 s2. capture_and_translate
           (example_env (\<lambda>f. (Exited 0, Some 7)) (\<lambda>img. OcrDone True (Some [])) flaky)
           no_font_api fresh
           = Some (Inr (Error ''No text detected''), s1) \<and>
        capture_and_translate
           (example_env (\<lambda>f. (Exited 0, f)) (\<lambda>img. OcrDone True (Some [])) flaky) no_font_api s1
           = Some (Inr (Error ''No text detected''), s2) \<and>
        ocr_runs s2 = 2"
  by (simp add: capture_and_translate_def capture_body_def example_env_def fresh_def
        ocr_vision_def py_not_def)

text \<open>
  C6 says that on every exit path the capture file does not remain on disk after the
  run. The path of a successful run removes the file (\<open>success_removes_capture_file\<close>);
  the path "No text detected" returns at line 70 without removing it. Here the capture
  writes the file and the Vision request finds nothing: the file is still there after
  the run.
\<close>

theorem capture_file_left_when_no_text:
  "capture_and_translate
     (example_env (\<lambda>f. (Exited 0, Some 7)) (\<lambda>img. OcrDone True (Some [])) flaky) no_font_api fresh
     = Some (Inr (Error ''No text detected''),
             \<lparr> temp_file = Some 7, ocr_runs = 1, tr_log = [], drawn = [] \<rparr>)"
  by (simp add: capture_and_translate_def capture_body_def example_env_def fresh_def
        ocr_vision_def py_not_def)

text \<open>
  C10 says that after a cancelled capture no capture file exists. Both error results
  are returned as the claim says, with no OCR and no translation
  (\<open>capture_cancelled_nonzero\<close>, \<open>capture_cancelled_no_file\<close>), but the handler of line 117
  removes nothing. Two runs of one \<open>API\<close> object, starting with no file: the first finds
  no text and leaves its file; in the second the capture process exits with status 1
  and touches nothing. The second run returns "Capture cancelled", and the file of the
  first run is there afterwards.
\<close>

theorem stale_file_survives_cancel:
  "\<exists>s1. capture_and_translate
           (example_env (\<lambda>f. (Exited 0, Some 7)) (\<lambda>img. OcrDone True (Some [])) flaky)
           no_font_api fresh
           = Some (Inr (Error ''No text detected''), s1) \<and>
        capture_and_translate
           (example_env (\<lambda>f. (Exited 1, f)) (\<lambda>img. OcrDone True (Some [])) flaky) no_font_api s1
           = Some (Inr (Error ''Capture cancelled''), s1) \<and>
        temp_file s1 = Some 7"
  by (simp add: capture_and_translate_def capture_body_def example_env_def fresh_def
        ocr_vision_def py_not_def)

section \<open>The compositor\<close>

lemma draw_items_no_fault:
  "i + length items \<le> length translated_texts \<Longrightarrow>
   draw_items (\<lambda>d. None) fnt W H translated_texts i items
     = Inr (concat (map (\<lambda>(j, it). [background W H it,
                                     label fnt W H (translated_texts ! j) it])
                     (List.enumerate i items)))"
proof (induction items arbitrary: i)
  case Nil
  then show ?case by simp
next
  case (Cons it rest)
  then have "Suc i + length rest \<le> length translated_texts" by simp
  then have "draw_items (\<lambda>d. None) fnt W H translated_texts (Suc i) rest
           = Inr (concat (map (\<lambda>(j, it). [background W H it,
                                           label fnt W H (translated_texts ! j) it])
                           (List.enumerate (Suc i) rest)))"
    by (rule Cons.IH)
  with Cons.prems show ?case
    by (simp add: Let_def)
qed

lemma draw_items_ops:
  assumes "\<forall>d. fault d = None" and "i + length items \<le> length translated_texts"
  shows "draw_items fault fnt W H translated_texts i items
           = Inr (concat (map (\<lambda>(j, it). [background W H it,
                                           label fnt W H (translated_texts ! j) it])
                           (List.enumerate i items)))"
proof -
  have "fault = (\<lambda>d. None)" using assms(1) by auto
  then show ?thesis using assms(2) by (simp only: draw_items_no_fault)
qed

lemma paint_append: "paint raster (pre @ post) img p = paint raster post (\<lambda>q. paint raster pre img q) p"
  by (simp add: paint_def)

lemma paint_opaque:
  assumes "opaque_at raster d p"
  shows "paint raster (pre @ d # post) img p = paint raster (d # post) img' p"
proof -
  have "raster d p (fold (\<lambda>d. raster d p) pre (img p)) = raster d p (img' p)"
    using assms by (simp add: opaque_at_def)
  then show ?thesis
    by (simp add: paint_def)
qed

lemma length_concat_pairs: "length (concat (map (\<lambda>x. [f x, g x]) xs)) = 2 * length xs"
  by (induction xs) simp_all

lemma drop_concat_pairs:
  "drop (2 * j) (concat (map (\<lambda>x. [f x, g x]) xs)) = concat (map (\<lambda>x. [f x, g x]) (drop j xs))"
proof (induction xs arbitrary: j)
  case Nil
  then show ?case by simp
next
  case (Cons x xs)
  then show ?case by (cases j) simp_all
qed

lemma paint_pairs_opaque:
  assumes j: "j < length xs" and op: "opaque_at raster (f (xs ! j)) p"
  shows "paint raster (concat (map (\<lambda>x. [f x, g x]) xs)) img p
           = paint raster (drop (2 * j) (concat (map (\<lambda>x. [f x, g x]) xs))) img' p"
proof -
  let ?ops = "concat (map (\<lambda>x. [f x, g x]) xs)"
  have d: "drop (2 * j) ?ops = f (xs ! j) # g (xs ! j) # concat (map (\<lambda>x. [f x, g x]) (drop (Suc j) xs))"
    using j by (simp add: drop_concat_pairs Cons_nth_drop_Suc [symmetric])
  have "?ops = take (2 * j) ?ops @ drop (2 * j) ?ops"
    by simp
  then have "paint raster ?ops img p = paint raster (take (2 * j) ?ops @ drop (2 * j) ?ops) img p"
    by simp
  also have "\<dots> = paint raster (drop (2 * j) ?ops) img' p"
    unfolding d using op by (rule paint_opaque)
  finally show ?thesis .
qed


lemma process_image_ops:
  assumes nofault: "\<forall>c. pil_fault E c = None"
    and len: "length translated_texts = length results"
    and size: "image_size E img = (W, H)"
  shows "process_image E A img results translated_texts
           = Inr (concat (map (\<lambda>(i, it). [background W H it,
                                 label (load_font A) W H (translated_texts ! i) it])
                            (List.enumerate 0 results)),
                  png_base64 E img
                    (concat (map (\<lambda>(i, it). [background W H it,
                                 label (load_font A) W H (translated_texts ! i) it])
                            (List.enumerate 0 results))))"
proof -
  have "\<forall>d. (\<lambda>d. pil_fault E (Draw d)) d = None"
    using nofault by simp
  moreover have "0 + length results \<le> length translated_texts"
    using len by simp
  ultimately have "draw_items (\<lambda>d. pil_fault E (Draw d)) (load_font A) W H translated_texts 0 results
      = Inr (concat (map (\<lambda>(i, it). [background W H it,
                                 label (load_font A) W H (translated_texts ! i) it])
                            (List.enumerate 0 results)))"
    by (rule draw_items_ops)
  then show ?thesis
    using nofault size by (simp add: process_image_def)
qed

lemma paint_items_opaque:
  assumes j: "j < length results"
    and op: "opaque_at raster (background W H (results ! j)) p"
  shows "paint raster (concat (map (\<lambda>(i, it). [background W H it, label fnt W H (ts ! i) it])
                                 (List.enumerate 0 results))) img1 p
       = paint raster (drop (2 * j)
                        (concat (map (\<lambda>(i, it). [background W H it, label fnt W H (ts ! i) it])
                                 (List.enumerate 0 results)))) img2 p"
proof -
  let ?f = "\<lambda>x. background W H (snd x)"
  let ?g = "\<lambda>x. label fnt W H (ts ! fst x) (snd x)"
  have eq: "(\<lambda>(i, it). [background W H it, label fnt W H (ts ! i) it]) = (\<lambda>x. [?f x, ?g x])"
    by (simp add: fun_eq_iff)
  have j': "j < length (List.enumerate 0 results)"
    using j by simp
  have "?f (List.enumerate 0 results ! j) = background W H (results ! j)"
    using j by (simp add: nth_enumerate_eq)
  with op have op': "opaque_at raster (?f (List.enumerate 0 results ! j)) p"
    by simp
  show ?thesis
    unfolding eq using j' op' by (rule paint_pairs_opaque)
qed

lemma no_font_default: "load_font no_font_api = LoadDefault"
  by (simp add: no_font_api_def api_init_def find_font_def font_paths_def load_font_def)

lemma hello_background:
  "background 100 100 hello_item
     = Rectangle (Dbl 84 (- 3)) (Dbl 84 (- 3)) (Dbl 316 (- 3)) (Dbl 216 (- 3)) ''white''"
  by code_simp

lemma hello_label:
  "label fnt 100 100 t hello_item = DrawText (Dbl 100 (- 3)) (Dbl 100 (- 3)) t ''black'' fnt"
proof -
  have "to_pixel_rect (item_box hello_item) 100 100
          = \<lparr> px = Dbl 100 (- 3), py = Dbl 100 (- 3), pw = Dbl 100 (- 2), ph = Dbl 100 (- 3) \<rparr>"
    by code_simp
  then show ?thesis by (simp add: label_def)
qed

lemma arial_font: "cached_font_path arial_api = Some ''/Library/Fonts/Arial Unicode.ttf''"
  by (simp add: arial_api_def api_init_def find_font_def font_paths_def)

lemma hello2_background:
  "background 100 100 hello_item2
     = Rectangle (Dbl 92 (- 2)) (Dbl 184 (- 3)) (Dbl 208 (- 2)) (Dbl 316 (- 3)) ''white''"
  by code_simp

lemma hello2_label:
  "label fnt 100 100 t hello_item2 = DrawText (Dbl 100 (- 2)) (Dbl 200 (- 3)) t ''black'' fnt"
proof -
  have "to_pixel_rect (item_box hello_item2) 100 100
          = \<lparr> px = Dbl 100 (- 2), py = Dbl 200 (- 3), pw = Dbl 100 (- 2), ph = Dbl 100 (- 3) \<rparr>"
    by code_simp
  then show ?thesis by (simp add: label_def)
qed

text \<open>
  C7, as stated, fails in the font: when no font path was found at startup
  (\<open>_cached_font_path\<close> is \<open>None\<close>), line 86 takes \<open>ImageFont.load_default()\<close>, to which no
  size is given, and the text is drawn with that font, not with a font at size 14.
\<close>

theorem default_font_counterexample:
  "load_font no_font_api = LoadDefault \<and>
   \<not> (\<exists>path. load_font no_font_api = TrueType path 14) \<and>
   process_image (example_env (\<lambda>f. (Exited 0, Some 7)) (\<lambda>img. OcrDone True (Some [])) flaky)
       no_font_api 7 [hello_item] [konnichiwa]
     = Inr ([Rectangle (Dbl 84 (- 3)) (Dbl 84 (- 3)) (Dbl 316 (- 3)) (Dbl 216 (- 3)) ''white'',
             DrawText (Dbl 100 (- 3)) (Dbl 100 (- 3)) konnichiwa ''black'' LoadDefault],
            ''iVBORw0KGgo='')"
  by (simp add: no_font_default process_image_def example_env_def hello_background hello_label)


text \<open>
  C7, amended. For each translated fragment, in extraction order, the compositor first
  fills the fragment's pixel rectangle, expanded by a fixed padding of 2 units on all
  sides, with white, and then draws the translated text at the rectangle's unpadded
  top-left origin (x, y) in black, with the font loaded at startup: the cached font
  path at point size 14 when one was found, the built-in default font (no size given)
  when none was found. When rectangles overlap the last drawn wins: at a pixel where the
  fill of fragment j is opaque, the colour after compositing is the one produced by the
  drawing calls from that fill on, whatever the source image and the earlier calls
  were. This is stated for a run in which no call of the imaging library raises, with
  as many translated strings as fragments, as \<open>capture_and_translate\<close> provides.
\<close>

theorem compose_fill_then_text:
  assumes nofault: "\<forall>c. pil_fault E c = None"
    and len: "length translated_texts = length results"
    and size: "image_size E img = (W, H)"
  shows "\<exists>ops. process_image E A img results translated_texts = Inr (ops, png_base64 E img ops) \<and>
      ops = concat (map (\<lambda>(i, it). [background W H it,
                                     label (load_font A) W H (translated_texts ! i) it])
                     (List.enumerate 0 results)) \<and>
      background W H it
        = (let r = to_pixel_rect (item_box it) W H; two = float_of_int 2
           in Rectangle (fsub (px r) two) (fsub (py r) two)
                (fadd (fadd (px r) (pw r)) two) (fadd (fadd (py r) (ph r)) two) ''white'') \<and>
      label (load_font A) W H t it
        = (let r = to_pixel_rect (item_box it) W H
           in DrawText (px r) (py r) t ''black'' (load_font A)) \<and>
      (cached_font_path A = Some path \<and> path \<noteq> [] \<longrightarrow> load_font A = TrueType path 14) \<and>
      (cached_font_path A = None \<longrightarrow> load_font A = LoadDefault) \<and>
      (j < length results \<and> opaque_at raster (background W H (results ! j)) p \<longrightarrow>
         paint raster ops img1 p = paint raster (drop (2 * j) ops) img2 p)"
proof -
  let ?ops = "concat (map (\<lambda>(i, it). [background W H it,
                                     label (load_font A) W H (translated_texts ! i) it])
                     (List.enumerate 0 results))"
  have run: "process_image E A img results translated_texts = Inr (?ops, png_base64 E img ?ops)"
    using nofault len size by (rule process_image_ops)
  have bg: "background W H it
        = (let r = to_pixel_rect (item_box it) W H; two = float_of_int 2
           in Rectangle (fsub (px r) two) (fsub (py r) two)
                (fadd (fadd (px r) (pw r)) two) (fadd (fadd (py r) (ph r)) two) ''white'')"
    by (simp add: background_def Let_def)
  have lb: "label (load_font A) W H t it
        = (let r = to_pixel_rect (item_box it) W H
           in DrawText (px r) (py r) t ''black'' (load_font A))"
    by (simp add: label_def)
  have f1: "cached_font_path A = Some path \<and> path \<noteq> [] \<longrightarrow> load_font A = TrueType path 14"
    by (simp add: load_font_def)
  have f2: "cached_font_path A = None \<longrightarrow> load_font A = LoadDefault"
    by (simp add: load_font_def)
  have occ: "j < length results \<and> opaque_at raster (background W H (results ! j)) p \<longrightarrow>
         paint raster ?ops img1 p = paint raster (drop (2 * j) ?ops) img2 p"
  proof
    assume h: "j < length results \<and> opaque_at raster (background W H (results ! j)) p"
    then have j: "j < length results"
      and op: "opaque_at raster (background W H (results ! j)) p"
      by simp_all
    from j op show "paint raster ?ops img1 p = paint raster (drop (2 * j) ?ops) img2 p"
      by (rule paint_items_opaque)
  qed
  show ?thesis
    by (intro exI [of _ ?ops] conjI run refl bg lb f1 f2 occ)
qed


text \<open>
  The two overlapping "Hello" fragments on a machine with the Arial Unicode font; the
  pixel (30, 25) lies in both padded rectangles.
\<close>

theorem compose_fill_then_text_witness:
  "\<exists>ops. process_image
            (example_env (\<lambda>f. (Exited 0, Some 7)) (\<lambda>img. OcrDone True (Some [])) flaky)
            arial_api 7 [hello_item, hello_item2] [konnichiwa, hello]
            = Inr (ops, ''iVBORw0KGgo='') \<and>
         ops = [Rectangle (Dbl 84 (- 3)) (Dbl 84 (- 3)) (Dbl 316 (- 3)) (Dbl 216 (- 3)) ''white'',
                DrawText (Dbl 100 (- 3)) (Dbl 100 (- 3)) konnichiwa ''black''
                  (TrueType ''/Library/Fonts/Arial Unicode.ttf'' 14),
                Rectangle (Dbl 92 (- 2)) (Dbl 184 (- 3)) (Dbl 208 (- 2)) (Dbl 316 (- 3)) ''white'',
                DrawText (Dbl 100 (- 2)) (Dbl 200 (- 3)) hello ''black''
                  (TrueType ''/Library/Fonts/Arial Unicode.ttf'' 14)] \<and>
         paint flat_raster ops (\<lambda>p. ''red'') (30, 25)
           = paint flat_raster (drop 2 ops) (\<lambda>p. ''blue'') (30, 25)"
proof -
  let ?E = "example_env (\<lambda>f. (Exited 0, Some 7)) (\<lambda>img. OcrDone True (Some [])) flaky"
  have nofault: "\<forall>c. pil_fault ?E c = None"
    by (simp add: example_env_def)
  have len: "length [konnichiwa, hello] = length [hello_item, hello_item2]"
    by simp
  have size: "image_size ?E 7 = (100, 100)"
    by (simp add: example_env_def)
  have fnt: "load_font arial_api = TrueType ''/Library/Fonts/Arial Unicode.ttf'' 14"
    by (simp add: load_font_def arial_font)
  have opq: "opaque_at flat_raster (background 100 100 ([hello_item, hello_item2] ! 1)) (30, 25)"
    by (simp add: hello2_background opaque_at_def flat_raster_def val_def)
  from compose_fill_then_text
         [where E = ?E and A = arial_api and img = 7 and W = 100 and H = 100
            and results = "[hello_item, hello_item2]"
            and translated_texts = "[konnichiwa, hello]"
            and j = 1 and raster = flat_raster and p = "(30, 25)"
            and ?img1.0 = "\<lambda>p. ''red''" and ?img2.0 = "\<lambda>p. ''blue''",
          OF nofault len size]
  obtain ops where
    run: "process_image ?E arial_api 7 [hello_item, hello_item2] [konnichiwa, hello]
            = Inr (ops, png_base64 ?E 7 ops)"
    and ops: "ops = concat (map (\<lambda>(i, it). [background 100 100 it,
                                     label (load_font arial_api) 100 100 ([konnichiwa, hello] ! i) it])
                     (List.enumerate 0 [hello_item, hello_item2]))"
    and occ: "1 < length [hello_item, hello_item2] \<and>
              opaque_at flat_raster (background 100 100 ([hello_item, hello_item2] ! 1)) (30, 25) \<longrightarrow>
         paint flat_raster ops (\<lambda>p. ''red'') (30, 25)
           = paint flat_raster (drop (2 * 1) ops) (\<lambda>p. ''blue'') (30, 25)"
    by blast
  have "ops = [Rectangle (Dbl 84 (- 3)) (Dbl 84 (- 3)) (Dbl 316 (- 3)) (Dbl 216 (- 3)) ''white'',
                DrawText (Dbl 100 (- 3)) (Dbl 100 (- 3)) konnichiwa ''black''
                  (TrueType ''/Library/Fonts/Arial Unicode.ttf'' 14),
                Rectangle (Dbl 92 (- 2)) (Dbl 184 (- 3)) (Dbl 208 (- 2)) (Dbl 316 (- 3)) ''white'',
                DrawText (Dbl 100 (- 2)) (Dbl 200 (- 3)) hello ''black''
                  (TrueType ''/Library/Fonts/Arial Unicode.ttf'' 14)]"
    by (simp add: ops fnt hello_background hello_label hello2_background hello2_label)
  moreover have "paint flat_raster ops (\<lambda>p. ''red'') (30, 25)
           = paint flat_raster (drop 2 ops) (\<lambda>p. ''blue'') (30, 25)"
    using occ opq by simp
  moreover have "png_base64 ?E 7 ops = ''iVBORw0KGgo=''"
    by (simp add: example_env_def)
  ultimately show ?thesis
    using run by simp
qed

end
